theory Spec2Isabelle
  imports Main "HOL-Library.AList" "HOL-Library.Sublist"
begin

section \<open>Python strings\<close>

text \<open>
  The helpers of \<^verbatim>\<open>src/utils.py\<close> work on Python \<^verbatim>\<open>str\<close> values. A string is
  modelled as a \<^typ>\<open>string\<close>, one \<^typ>\<open>char\<close> per code point, so the model covers
  the strings whose code points lie in U+0000 .. U+00FF. On that range the tables below
  are those of CPython: \<^verbatim>\<open>str.isspace\<close> (also used by \<^verbatim>\<open>str.strip\<close> and by
  the regex class \<^verbatim>\<open>\s\<close>), \<^verbatim>\<open>str.isalnum\<close> (the regex class \<^verbatim>\<open>\w\<close> is
  \<^verbatim>\<open>isalnum\<close> or underscore) and \<^verbatim>\<open>str.lower\<close>, which maps every such code
  point to a single code point of the same range.
\<close>

definition newline :: char where
  "newline = CHR 0x0A"

definition py_isspace :: "char \<Rightarrow> bool" where
  "py_isspace c =
     (let n = (of_char c :: nat)
      in (9 \<le> n \<and> n \<le> 13) \<or> (28 \<le> n \<and> n \<le> 32) \<or> n = 133 \<or> n = 160)"

definition py_isalnum :: "char \<Rightarrow> bool" where
  "py_isalnum c =
     (let n = (of_char c :: nat)
      in (48 \<le> n \<and> n \<le> 57) \<or> (65 \<le> n \<and> n \<le> 90) \<or> (97 \<le> n \<and> n \<le> 122)
         \<or> n = 170 \<or> n = 178 \<or> n = 179 \<or> n = 181 \<or> n = 185 \<or> n = 186
         \<or> (188 \<le> n \<and> n \<le> 190) \<or> (192 \<le> n \<and> n \<le> 214)
         \<or> (216 \<le> n \<and> n \<le> 246) \<or> (248 \<le> n \<and> n \<le> 255))"

definition lower_char :: "char \<Rightarrow> char" where
  "lower_char c =
     (let n = (of_char c :: nat)
      in if (65 \<le> n \<and> n \<le> 90) \<or> (192 \<le> n \<and> n \<le> 222 \<and> n \<noteq> 215)
         then char_of (n + 32) else c)"

text \<open>\<^verbatim>\<open>s.lower()\<close>\<close>

definition lower :: "string \<Rightarrow> string" where
  "lower s = map lower_char s"

text \<open>\<^verbatim>\<open>s.strip()\<close>: leading and trailing whitespace removed.\<close>

definition lstrip :: "string \<Rightarrow> string" where
  "lstrip s = dropWhile py_isspace s"

definition rstrip :: "string \<Rightarrow> string" where
  "rstrip s = rev (dropWhile py_isspace (rev s))"

definition strip :: "string \<Rightarrow> string" where
  "strip s = rstrip (lstrip s)"

text \<open>\<^verbatim>\<open>s.startswith(p)\<close>, and the form that takes a tuple of prefixes.\<close>

definition startswith :: "string \<Rightarrow> string \<Rightarrow> bool" where
  "startswith s p = (take (length p) s = p)"

definition startswith_any :: "string \<Rightarrow> string list \<Rightarrow> bool" where
  "startswith_any s ps = list_ex (startswith s) ps"

text \<open>\<^verbatim>\<open>p in s\<close> on strings: \<open>p\<close> occurs in \<open>s\<close> as a contiguous substring.\<close>

fun py_in :: "string \<Rightarrow> string \<Rightarrow> bool" where
  "py_in p [] = (p = [])"
| "py_in p (c # cs) = (startswith (c # cs) p \<or> py_in p cs)"

text \<open>
  \<^verbatim>\<open>s.split('\n')\<close>: the pieces between line feeds; the result is never empty
  (\<^verbatim>\<open>''.split('\n')\<close> is \<^verbatim>\<open>['']\<close>).
\<close>

fun split_nl :: "string \<Rightarrow> string list" where
  "split_nl [] = [[]]"
| "split_nl (c # cs) =
     (if c = newline then [] # split_nl cs
      else (case split_nl cs of [] \<Rightarrow> [[c]] | l # ls \<Rightarrow> (c # l) # ls))"

text \<open>\<^verbatim>\<open>'\n'.join(ls)\<close>\<close>

fun join_nl :: "string list \<Rightarrow> string" where
  "join_nl [] = []"
| "join_nl [l] = l"
| "join_nl (l # ls) = l @ newline # join_nl ls"

text \<open>
  The argument \<^verbatim>\<open>report_content\<close> is annotated \<^verbatim>\<open>str\<close>, which Python does not
  enforce (the application initialises the session value it passes with \<^verbatim>\<open>None\<close>).
  A value is therefore a string or \<^verbatim>\<open>None\<close>; looking up \<^verbatim>\<open>.split\<close> on
  \<^verbatim>\<open>None\<close> raises \<^verbatim>\<open>AttributeError\<close>. On a \<^verbatim>\<open>str\<close> none of the string
  operations used below raises.
\<close>

datatype pyval = PyStr string | PyNone

datatype exn = AttributeError

definition py_split_nl :: "pyval \<Rightarrow> exn + string list" where
  "py_split_nl v = (case v of PyStr s \<Rightarrow> Inr (split_nl s) | PyNone \<Rightarrow> Inl AttributeError)"

text \<open>Truth value of a Python object in a condition.\<close>

definition truthy :: "pyval \<Rightarrow> bool" where
  "truthy v = (case v of PyStr s \<Rightarrow> s \<noteq> [] | PyNone \<Rightarrow> False)"

section \<open>Section classifier: \<^verbatim>\<open>format_report_for_display\<close>\<close>

text \<open>
  The dictionary \<^verbatim>\<open>sections\<close> is an association list in insertion order; assigning
  to an existing key keeps its position (\<^const>\<open>AList.update\<close>).
\<close>

type_synonym sections = "(string \<times> pyval) list"

definition sections_init :: sections where
  "sections_init =
     [(''overview'', PyStr ''''), (''detailed_analysis'', PyStr ''''),
      (''competitor_matrix'', PyStr ''''), (''recommendations'', PyStr '''')]"

record fmt_state =
  sections_of :: sections
  current_section :: "string option"
  current_content :: "string list"

text \<open>The four conditions of the \<^verbatim>\<open>if\<close>/\<^verbatim>\<open>elif\<close> chain, on \<^verbatim>\<open>line_lower\<close>.
  In the fourth, \<^verbatim>\<open>and\<close> binds tighter than \<^verbatim>\<open>or\<close>.\<close>

definition is_overview_header :: "string \<Rightarrow> bool" where
  "is_overview_header line_lower =
     (py_in ''executive summary'' line_lower \<or> py_in ''key findings'' line_lower)"

definition is_detailed_header :: "string \<Rightarrow> bool" where
  "is_detailed_header line_lower =
     (py_in ''detailed competitor analysis'' line_lower \<or> py_in ''swot'' line_lower)"

definition is_matrix_header :: "string \<Rightarrow> bool" where
  "is_matrix_header line_lower =
     (py_in ''comparison matrix'' line_lower \<or> py_in ''competitive comparison'' line_lower)"

definition is_recommendations_header :: "string \<Rightarrow> bool" where
  "is_recommendations_header line_lower =
     (py_in ''recommendation'' line_lower
      \<or> (py_in ''strategic'' line_lower \<and> py_in ''recommendation'' line_lower))"

text \<open>The branch the chain takes: the section a line opens, if any (first match wins).\<close>

definition detect_header :: "string \<Rightarrow> string option" where
  "detect_header line =
     (let line_lower = strip (lower line)
      in if is_overview_header line_lower then Some ''overview''
         else if is_detailed_header line_lower then Some ''detailed_analysis''
         else if is_matrix_header line_lower then Some ''competitor_matrix''
         else if is_recommendations_header line_lower then Some ''recommendations''
         else None)"

text \<open>\<^verbatim>\<open>if current_section: sections[current_section] = '\n'.join(current_content)\<close>;
  \<^verbatim>\<open>None\<close> and the empty string are false.\<close>

definition flush :: "fmt_state \<Rightarrow> sections" where
  "flush st =
     (case current_section st of
        None \<Rightarrow> sections_of st
      | Some k \<Rightarrow>
          if k \<noteq> [] then AList.update k (PyStr (join_nl (current_content st))) (sections_of st)
          else sections_of st)"

text \<open>One iteration of the loop over the lines.\<close>

definition fmt_step :: "fmt_state \<Rightarrow> string \<Rightarrow> fmt_state" where
  "fmt_step st line =
     (case detect_header line of
        Some k \<Rightarrow>
          \<lparr>sections_of = flush st, current_section = Some k, current_content = [line]\<rparr>
      | None \<Rightarrow>
          (case current_section st of
             None \<Rightarrow> st
           | Some k \<Rightarrow>
               if k \<noteq> [] then st\<lparr>current_content := current_content st @ [line]\<rparr> else st))"

text \<open>
  The body of the \<^verbatim>\<open>try\<close> block. A raise is returned as \<open>Inl\<close> together with the
  dictionary as it is at that moment, which is what the handler then works on.
\<close>

definition format_try :: "pyval \<Rightarrow> sections \<Rightarrow> (exn \<times> sections) + sections" where
  "format_try report_content sections =
     (case py_split_nl report_content of
        Inl e \<Rightarrow> Inl (e, sections)
      | Inr lines \<Rightarrow>
          (let st = foldl fmt_step
                      \<lparr>sections_of = sections, current_section = None, current_content = []\<rparr>
                      lines;
               sections' = flush st
           in if \<not> list_ex truthy (map snd sections')
              then Inr (AList.update ''overview'' report_content sections')
              else Inr sections'))"

text \<open>
  The whole function: \<^verbatim>\<open>except Exception\<close> logs the error (the log is not modelled),
  stores the raw argument under \<^verbatim>\<open>"overview"\<close> and falls through to the
  \<^verbatim>\<open>return\<close>. The result is \<open>Inr\<close> for a normal return, \<open>Inl\<close> for an exception
  that leaves the function.
\<close>

definition format_report_for_display :: "pyval \<Rightarrow> exn + sections" where
  "format_report_for_display report_content =
     (case format_try report_content sections_init of
        Inr sections \<Rightarrow> Inr sections
      | Inl (e, sections) \<Rightarrow> Inr (AList.update ''overview'' report_content sections))"

section \<open>Metrics extractor: \<^verbatim>\<open>extract_key_metrics\<close>\<close>

record metrics =
  num_competitors :: int
  key_findings :: "string list"
  threat_level :: string
  opportunities :: int

definition metrics_init :: metrics where
  "metrics_init =
     \<lparr>num_competitors = 0, key_findings = [], threat_level = ''Medium'', opportunities = 0\<rparr>"

text \<open>
  A \<^verbatim>\<open>for\<close> loop whose body may \<^verbatim>\<open>break\<close>: the body returns the next state and
  whether the loop goes on.
\<close>

datatype 'a ctl = Continue 'a | Break 'a

fun for_loop :: "('a \<Rightarrow> 'b \<Rightarrow> 'a ctl) \<Rightarrow> 'a \<Rightarrow> 'b list \<Rightarrow> 'a" where
  "for_loop body s [] = s"
| "for_loop body s (x # xs) =
     (case body s x of Continue s' \<Rightarrow> for_loop body s' xs | Break s' \<Rightarrow> s')"

text \<open>First loop: count the \<^verbatim>\<open>###\<close> headings that name a competitor.\<close>

definition competitors_step :: "metrics \<Rightarrow> string \<Rightarrow> metrics" where
  "competitors_step m line =
     (if startswith line ''### ''
         \<and> \<not> list_ex (\<lambda>x. py_in x (lower line)) [''recommendation'', ''summary'', ''finding'']
      then m\<lparr>num_competitors := num_competitors m + 1\<rparr>
      else m)"

text \<open>Second loop: the state is \<^verbatim>\<open>in_findings\<close> and the dictionary.\<close>

definition findings_step :: "bool \<times> metrics \<Rightarrow> string \<Rightarrow> (bool \<times> metrics) ctl" where
  "findings_step st line =
     (case st of (in_findings, m) \<Rightarrow>
        if py_in ''key findings'' (lower line) then Continue (True, m)
        else if in_findings then
          (if startswith_any (strip line) [''1.'', ''2.'', ''3.'', ''4.'', ''5.'']
           then Continue (in_findings,
                          m\<lparr>key_findings := key_findings m @ [strip (drop 3 (strip line))]\<rparr>)
           else if startswith line ''##'' then Break (in_findings, m)
           else Continue (in_findings, m))
        else Continue (in_findings, m))"

text \<open>Third loop: the state is \<^verbatim>\<open>in_opportunities\<close> and the dictionary.\<close>

definition opportunities_step :: "bool \<times> metrics \<Rightarrow> string \<Rightarrow> (bool \<times> metrics) ctl" where
  "opportunities_step st line =
     (case st of (in_opportunities, m) \<Rightarrow>
        if py_in ''market opportunities'' (lower line) \<or> py_in ''opportunities'' (lower line)
        then Continue (True, m)
        else if in_opportunities then
          (if startswith_any (strip line) [''1.'', ''2.'', ''3.'', ''-'', ''*'']
           then Continue (in_opportunities, m\<lparr>opportunities := opportunities m + 1\<rparr>)
           else if startswith line ''##'' then Break (in_opportunities, m)
           else Continue (in_opportunities, m))
        else Continue (in_opportunities, m))"

text \<open>
  The body of the \<^verbatim>\<open>try\<close> block; a raise comes with the dictionary as it is then.
\<close>

definition extract_try :: "pyval \<Rightarrow> metrics \<Rightarrow> (exn \<times> metrics) + metrics" where
  "extract_try report_content m =
     (case py_split_nl report_content of
        Inl e \<Rightarrow> Inl (e, m)
      | Inr lines \<Rightarrow>
          (let m1 = foldl competitors_step m lines;
               m2 = snd (for_loop findings_step (False, m1) lines);
               m3 = snd (for_loop opportunities_step (False, m2) lines)
           in Inr m3))"

text \<open>
  The whole function: the handler only logs, and the \<^verbatim>\<open>return\<close> after it gives
  back the dictionary whatever state it is in.
\<close>

definition extract_key_metrics :: "pyval \<Rightarrow> exn + metrics" where
  "extract_key_metrics report_content =
     (case extract_try report_content metrics_init of
        Inr m \<Rightarrow> Inr m
      | Inl (e, m) \<Rightarrow> Inr m)"

section \<open>Regular-expression substitutions\<close>

text \<open>
  \<^verbatim>\<open>re.sub\<close> for the three shapes of pattern the source uses. Matches are found
  from left to right and do not overlap; none of the patterns matches the empty string.
\<close>

text \<open>A one-character class \<^verbatim>\<open>[...]\<close>: every character of the class is replaced.\<close>

definition re_sub_class :: "(char \<Rightarrow> bool) \<Rightarrow> string \<Rightarrow> string \<Rightarrow> string" where
  "re_sub_class cls repl s = concat (map (\<lambda>c. if cls c then repl else [c]) s)"

text \<open>A greedy run \<^verbatim>\<open>[...]+\<close>: every maximal run of the class is replaced once.\<close>

function re_sub_class_plus :: "(char \<Rightarrow> bool) \<Rightarrow> string \<Rightarrow> string \<Rightarrow> string" where
  "re_sub_class_plus cls repl [] = []"
| "re_sub_class_plus cls repl (c # cs) =
     (if cls c then repl @ re_sub_class_plus cls repl (dropWhile cls cs)
      else c # re_sub_class_plus cls repl cs)"
  by pat_completeness auto
termination
  by (relation "measure (\<lambda>(cls, repl, s). length s)")
     (auto simp: less_Suc_eq_le length_dropWhile_le)

text \<open>
  The lazy group \<^verbatim>\<open>(.+?)\<close> followed by the closing delimiter \<open>d\<close>: at least
  one character, none of them a line feed, and as few as possible. The result is the
  group and the text after the closing delimiter.
\<close>

fun lazy_group :: "string \<Rightarrow> string \<Rightarrow> string \<Rightarrow> (string \<times> string) option" where
  "lazy_group d acc [] = None"
| "lazy_group d acc (c # cs) =
     (if c = newline then None
      else if startswith cs d then Some (acc @ [c], drop (length d) cs)
      else lazy_group d (acc @ [c]) cs)"

text \<open>
  A pattern \<^verbatim>\<open>D(.+?)D\<close> with the literal delimiter \<open>d\<close> on both sides and the
  replacement \<^verbatim>\<open>L\1R\<close>. Where no match starts at a position, its character is copied.
\<close>

function re_sub_delim :: "string \<Rightarrow> string \<Rightarrow> string \<Rightarrow> string \<Rightarrow> string" where
  "re_sub_delim d l r [] = []"
| "re_sub_delim d l r (c # cs) =
     (if startswith (c # cs) d
      then (case lazy_group d [] (drop (length d) (c # cs)) of
              Some (g, rest) \<Rightarrow> l @ g @ r @ re_sub_delim d l r rest
            | None \<Rightarrow> c # re_sub_delim d l r cs)
      else c # re_sub_delim d l r cs)"
  by pat_completeness auto
termination
proof (relation "measure (\<lambda>(d, l, r, s). length s)")
  have shorter: "lazy_group d acc s = Some (g, rest) \<Longrightarrow> length rest < length s"
    for d acc s g rest
  proof (induction s arbitrary: acc)
    case Nil
    then show ?case by simp
  next
    case (Cons c cs)
    show ?case
    proof (cases "startswith cs d")
      case True
      with Cons.prems show ?thesis
        by (auto split: if_splits simp: less_Suc_eq_le)
    next
      case False
      with Cons.prems have "lazy_group d (acc @ [c]) cs = Some (g, rest)"
        by (auto split: if_splits)
      from Cons.IH [OF this] show ?thesis by simp
    qed
  qed
  fix d l r :: string and c :: char and cs :: string and x2 :: "string \<times> string" and g rest :: string
  assume "lazy_group d [] (drop (length d) (c # cs)) = Some x2" and "(g, rest) = x2"
  then have "length rest < length (drop (length d) (c # cs))"
    using shorter [of d "[]" "drop (length d) (c # cs)" g rest] by simp
  then show "((d, l, r, rest), d, l, r, c # cs) \<in> measure (\<lambda>(d, l, r, s). length s)"
    by simp
qed simp_all

section \<open>Dates\<close>

text \<open>
  \<^verbatim>\<open>datetime.now()\<close> is an input of the model. \<^verbatim>\<open>strftime\<close> is taken in the C
  locale, for the years 1000 to 9999, where \<^verbatim>\<open>%Y\<close> has four digits.
\<close>

record date =
  year :: nat
  month :: nat
  day :: nat

definition digit :: "nat \<Rightarrow> char" where
  "digit n = ''0123456789'' ! (n mod 10)"

definition dec2 :: "nat \<Rightarrow> string" where
  "dec2 n = [digit (n div 10), digit n]"

definition dec4 :: "nat \<Rightarrow> string" where
  "dec4 n = [digit (n div 1000), digit (n div 100), digit (n div 10), digit n]"

definition month_name :: "nat \<Rightarrow> string" where
  "month_name m =
     [''January'', ''February'', ''March'', ''April'', ''May'', ''June'', ''July'',
      ''August'', ''September'', ''October'', ''November'', ''December''] ! ((m - 1) mod 12)"

text \<open>\<^verbatim>\<open>strftime('%B %d, %Y')\<close> and \<^verbatim>\<open>strftime('%Y%m%d')\<close>\<close>

definition strftime_long :: "date \<Rightarrow> string" where
  "strftime_long d = month_name (month d) @ '' '' @ dec2 (day d) @ '', '' @ dec4 (year d)"

definition strftime_ymd :: "date \<Rightarrow> string" where
  "strftime_ymd d = dec4 (year d) @ dec2 (month d) @ dec2 (day d)"

section \<open>Document renderer: \<^verbatim>\<open>PDFReportGenerator\<close>\<close>

text \<open>
  The flowables are objects of the layout library, which is not part of the repository.
  A spacer is its width and its height; the height is kept in hundredths of an inch
  (\<^verbatim>\<open>0.3 * inch\<close> is \<open>30\<close>), so no floating-point product is evaluated. A paragraph is
  its markup text and the name of its style. The text is a Python \<^verbatim>\<open>str\<close> that the
  renderer builds from its inputs and from literals of the source; it is kept as the list
  of its code points, so that the bullet U+2022 of the source is one element.
\<close>

datatype style = CustomTitle | CustomHeading2 | CustomHeading3 | CustomBody | CustomBullet

type_synonym markup = "nat list"

datatype flowable = Paragraph markup style | Spacer nat nat | PageBreak

definition code_points :: "string \<Rightarrow> markup" where
  "code_points s = map of_char s"

definition bullet :: nat where
  "bullet = 0x2022"

text \<open>
  The constructor \<^verbatim>\<open>Paragraph(text, style)\<close> parses the markup of its text and raises
  when the library does not accept it. The library's parser is a parameter \<open>lib\<close> of the
  renderer: \<open>lib text style\<close> is the exception the constructor raises on that text and
  style, if any. \<^verbatim>\<open>Spacer\<close> and \<^verbatim>\<open>PageBreak\<close> store their arguments and do not raise.
\<close>

type_synonym 'e paraparser = "markup \<Rightarrow> style \<Rightarrow> 'e option"

definition new_paragraph :: "'e paraparser \<Rightarrow> markup \<Rightarrow> style \<Rightarrow> 'e + flowable" where
  "new_paragraph lib text st =
     (case lib text st of Some e \<Rightarrow> Inl e | None \<Rightarrow> Inr (Paragraph text st))"

text \<open>
  Sequencing of statements that may raise: an exception of the first ends the function,
  which has no handler of its own, and goes to its caller.
\<close>

definition try_bind :: "'e + 'a \<Rightarrow> ('a \<Rightarrow> 'e + 'b) \<Rightarrow> 'e + 'b" where
  "try_bind m f = (case m of Inl e \<Rightarrow> Inl e | Inr x \<Rightarrow> f x)"

record generator =
  company_name :: string
  industry :: string

text \<open>
  \<^verbatim>\<open>_create_title_page\<close>: the four paragraphs are constructed in the order of the
  source, each before it is appended; the list is returned when all four exist.
\<close>

definition create_title_page :: "'e paraparser \<Rightarrow> date \<Rightarrow> generator \<Rightarrow> 'e + flowable list" where
  "create_title_page lib now self =
     try_bind (new_paragraph lib (code_points ''COMPETITOR ANALYSIS REPORT'') CustomTitle)
       (\<lambda>title.
     try_bind (new_paragraph lib (code_points (''<b>'' @ company_name self @ ''</b>''))
                 CustomHeading2)
       (\<lambda>company.
     try_bind (new_paragraph lib (code_points (''Industry: '' @ industry self)) CustomBody)
       (\<lambda>industry_par.
     try_bind (new_paragraph lib (code_points (''Report Date: '' @ strftime_long now))
                 CustomBody)
       (\<lambda>date_par.
     Inr [title, Spacer 1 30, company, Spacer 1 20, industry_par, Spacer 1 10, date_par,
          PageBreak]))))"

definition clean_markdown :: "string \<Rightarrow> string" where
  "clean_markdown text0 =
     (let text1 = re_sub_delim ''**'' ''<b>'' ''</b>'' text0;
          text2 = re_sub_delim ''*'' ''<i>'' ''</i>'' text1;
          text3 = re_sub_delim ''`''
                    (''<font name='' @ [CHR 0x22] @ ''Courier'' @ [CHR 0x22] @ ''>'')
                    ''</font>'' text2
      in text3)"

text \<open>
  One iteration of the \<^verbatim>\<open>while\<close> loop of \<^verbatim>\<open>_parse_report_content\<close>: the
  flowables appended for the line \<^verbatim>\<open>lines[i]\<close>, or the exception of the paragraph
  constructed for it. Every path of the body that does not raise ends with
  \<^verbatim>\<open>i += 1\<close>. In the numbered branch \<^verbatim>\<open>line[0]\<close> is in range, the line starting
  with a three-character marker.
\<close>

definition line_elements :: "'e paraparser \<Rightarrow> string \<Rightarrow> 'e + flowable list" where
  "line_elements lib raw =
     (let line = strip raw
      in if line = [] then Inr []
         else if startswith line ''# ''
           then try_bind (new_paragraph lib (code_points (strip (drop 2 line))) CustomTitle)
                  (\<lambda>p. Inr [p, Spacer 1 20])
         else if startswith line ''## ''
           then try_bind (new_paragraph lib (code_points (strip (drop 3 line))) CustomHeading2)
                  (\<lambda>p. Inr [Spacer 1 15, p, Spacer 1 10])
         else if startswith line ''### ''
           then try_bind (new_paragraph lib (code_points (strip (drop 4 line))) CustomHeading3)
                  (\<lambda>p. Inr [p, Spacer 1 5])
         else if startswith line ''- '' \<or> startswith line ''* ''
           then try_bind
                  (new_paragraph lib
                     (bullet # code_points ('' '' @ strip (drop 2 line))) CustomBullet)
                  (\<lambda>p. Inr [p])
         else if startswith line ''1. '' \<or> startswith line ''2. '' \<or> startswith line ''3. ''
           then try_bind
                  (new_paragraph lib
                     (code_points (take 1 line @ ''. '' @ strip (drop 3 line))) CustomBullet)
                  (\<lambda>p. Inr [p])
         else if startswith line ''---''
           then Inr [Spacer 1 10]
         else try_bind (new_paragraph lib (code_points (clean_markdown line)) CustomBody)
                (\<lambda>p. Inr [p]))"

text \<open>
  The loop of \<^verbatim>\<open>_parse_report_content\<close> over the lines, in order, with the list
  \<^verbatim>\<open>elements\<close> built so far; an exception ends it.
\<close>

fun parse_lines :: "'e paraparser \<Rightarrow> flowable list \<Rightarrow> string list \<Rightarrow> 'e + flowable list" where
  "parse_lines lib elements [] = Inr elements"
| "parse_lines lib elements (raw # rest) =
     try_bind (line_elements lib raw) (\<lambda>new. parse_lines lib (elements @ new) rest)"

definition parse_report_content :: "'e paraparser \<Rightarrow> string \<Rightarrow> 'e + flowable list" where
  "parse_report_content lib content = parse_lines lib [] (split_nl content)"

text \<open>
  \<^verbatim>\<open>generate_pdf\<close>, up to the list \<^verbatim>\<open>elements\<close> it passes to \<^verbatim>\<open>doc.build\<close>; the
  layout done by \<^verbatim>\<open>doc.build\<close> is the library's work and is not modelled. The document
  template created before the list takes constants only. The handler of the \<^verbatim>\<open>try\<close>
  block logs the exception and raises it again, so an exception of either call is the
  outcome of \<^verbatim>\<open>generate_pdf\<close>.
\<close>

definition generate_pdf_elements ::
  "'e paraparser \<Rightarrow> date \<Rightarrow> generator \<Rightarrow> string \<Rightarrow> 'e + flowable list" where
  "generate_pdf_elements lib now self report_content =
     try_bind (create_title_page lib now self)
       (\<lambda>title_page.
     try_bind (parse_report_content lib report_content)
       (\<lambda>body.
     Inr (([] @ title_page) @ body)))"

text \<open>
  The library's parser on the texts evaluated in this theory. The library rejects the
  markup \<^verbatim>\<open><b>A<B Corp</b>\<close> with a \<^verbatim>\<open>ValueError\<close>: in it \<^verbatim>\<open><B Corp</b>\<close> opens a tag
  that is never closed. The other texts constructed in the evaluations are plain text or
  one well-formed bold span, which the library accepts.
\<close>

datatype lib_error = ValueError

definition parser_sample :: "lib_error paraparser" where
  "parser_sample text st =
     (if text = code_points ''<b>A<B Corp</b>'' then Some ValueError else None)"

section \<open>Export file name: \<^verbatim>\<open>generate_filename\<close>\<close>

text \<open>The classes \<^verbatim>\<open>[^\w\s-]\<close> and \<^verbatim>\<open>[-\s]\<close>.\<close>

definition not_word_space_hyphen :: "char \<Rightarrow> bool" where
  "not_word_space_hyphen c =
     (\<not> ((py_isalnum c \<or> c = CHR ''_'') \<or> py_isspace c \<or> c = CHR ''-''))"

definition hyphen_or_space :: "char \<Rightarrow> bool" where
  "hyphen_or_space c = (c = CHR ''-'' \<or> py_isspace c)"

definition generate_filename :: "date \<Rightarrow> string \<Rightarrow> string \<Rightarrow> string" where
  "generate_filename now company extension =
     (let clean_name = re_sub_class not_word_space_hyphen '''' company;
          clean_name = re_sub_class_plus hyphen_or_space ''_'' clean_name;
          timestamp = strftime_ymd now
      in ''competitor_analysis_'' @ clean_name @ ''_'' @ timestamp @ ''.'' @ extension)"

section \<open>Facts about lines\<close>

lemma split_nl_nonempty: "split_nl s \<noteq> []"
  by (induction s) (auto split: list.splits)

lemma join_split_nl: "join_nl (split_nl s) = s"
proof (induction s)
  case Nil
  show ?case by simp
next
  case (Cons c cs)
  obtain l ls where ls: "split_nl cs = l # ls"
    using split_nl_nonempty [of cs] by (cases "split_nl cs") auto
  show ?case
  proof (cases "c = newline")
    case True
    with Cons ls show ?thesis by simp
  next
    case False
    with Cons ls show ?thesis by (cases ls) auto
  qed
qed

section \<open>The section classifier\<close>

text \<open>Lines that open no section leave the state alone before the first header, and are
  appended to the pending content after it.\<close>

lemma foldl_fmt_step_pre:
  "current_section st = None \<Longrightarrow> \<forall>l\<in>set ls. detect_header l = None \<Longrightarrow>
   foldl fmt_step st ls = st"
  by (induction ls) (simp_all add: fmt_step_def)

lemma foldl_fmt_step_body:
  "current_section st = Some k \<Longrightarrow> k \<noteq> [] \<Longrightarrow> \<forall>l\<in>set ls. detect_header l = None \<Longrightarrow>
   foldl fmt_step st ls = st\<lparr>current_content := current_content st @ ls\<rparr>"
  by (induction ls arbitrary: st) (simp_all add: fmt_step_def)

text \<open>
  Claim C3. If no line of the text opens a section (no line, lowercased and trimmed,
  contains one of the heading keywords), \<^verbatim>\<open>format_report_for_display\<close> returns the
  dictionary whose \<^verbatim>\<open>overview\<close> is the whole input text and whose three other values
  are the empty string.
\<close>

theorem no_headers_overview_is_text:
  assumes "\<forall>line\<in>set (split_nl t). detect_header line = None"
  shows "format_report_for_display (PyStr t) =
           Inr [(''overview'', PyStr t), (''detailed_analysis'', PyStr ''''),
                (''competitor_matrix'', PyStr ''''), (''recommendations'', PyStr '''')]"
proof -
  let ?st0 = "\<lparr>sections_of = sections_init, current_section = None, current_content = []\<rparr>"
  have "foldl fmt_step ?st0 (split_nl t) = ?st0"
    using assms by (simp add: foldl_fmt_step_pre)
  then show ?thesis
    by (simp add: format_report_for_display_def format_try_def py_split_nl_def flush_def
        sections_init_def truthy_def)
qed

theorem no_headers_overview_is_text_witness:
  "map detect_header (split_nl (''Acme sells anvils.'' @ [newline] @ ''They are heavy.''))
     = [None, None]
   \<and> format_report_for_display (PyStr (''Acme sells anvils.'' @ [newline] @ ''They are heavy.'')) =
       Inr [(''overview'', PyStr (''Acme sells anvils.'' @ [newline] @ ''They are heavy.'')),
            (''detailed_analysis'', PyStr ''''),
            (''competitor_matrix'', PyStr ''''), (''recommendations'', PyStr '''')]"
proof -
  have h: "\<forall>line\<in>set (split_nl (''Acme sells anvils.'' @ [newline] @ ''They are heavy.'')).
             detect_header line = None"
    by code_simp
  have m: "map detect_header (split_nl (''Acme sells anvils.'' @ [newline] @ ''They are heavy.''))
             = [None, None]"
    by code_simp
  from no_headers_overview_is_text [OF h] m show ?thesis by simp
qed

text \<open>
  Claim C4. The fourth condition of the chain, written with \<^verbatim>\<open>'strategic'\<close>, is
  equivalent to \<^verbatim>\<open>'recommendation' in line_lower\<close>: a line with "strategic" and
  without "recommendation" does not satisfy it, and a line is filed under
  \<^verbatim>\<open>recommendations\<close> exactly when its lowercased, trimmed text contains
  "recommendation" and none of the three earlier conditions holds.
\<close>

theorem recommendations_rule_collapses:
  "is_recommendations_header line_lower = py_in ''recommendation'' line_lower
   \<and> (py_in ''strategic'' line_lower \<and> \<not> py_in ''recommendation'' line_lower
        \<longrightarrow> \<not> is_recommendations_header line_lower)
   \<and> (detect_header line = Some ''recommendations'')
       = (py_in ''recommendation'' (strip (lower line))
          \<and> \<not> is_overview_header (strip (lower line))
          \<and> \<not> is_detailed_header (strip (lower line))
          \<and> \<not> is_matrix_header (strip (lower line)))"
  by (auto simp: is_recommendations_header_def detect_header_def Let_def)

theorem recommendations_rule_collapses_witness:
  "py_in ''strategic'' (strip (lower ''## Strategic Plan''))
   \<and> \<not> py_in ''recommendation'' (strip (lower ''## Strategic Plan''))
   \<and> \<not> is_recommendations_header (strip (lower ''## Strategic Plan''))
   \<and> detect_header ''## Strategic Plan'' \<noteq> Some ''recommendations''
   \<and> detect_header ''Strategic Recommendations'' = Some ''recommendations''"
proof -
  have a: "py_in ''strategic'' (strip (lower ''## Strategic Plan''))" by code_simp
  have b: "\<not> py_in ''recommendation'' (strip (lower ''## Strategic Plan''))" by code_simp
  have c: "py_in ''recommendation'' (strip (lower ''Strategic Recommendations''))
          \<and> \<not> is_overview_header (strip (lower ''Strategic Recommendations''))
          \<and> \<not> is_detailed_header (strip (lower ''Strategic Recommendations''))
          \<and> \<not> is_matrix_header (strip (lower ''Strategic Recommendations''))" by code_simp
  show ?thesis
    using a b c
      recommendations_rule_collapses [of "strip (lower ''## Strategic Plan'')" "''## Strategic Plan''"]
      recommendations_rule_collapses [of "strip (lower ''Strategic Recommendations'')"
        "''Strategic Recommendations''"]
    by simp
qed

section \<open>Exceptions\<close>

text \<open>
  Claim C2. On every string, the empty one and those with unbalanced markup included, the
  \<^verbatim>\<open>try\<close> blocks of \<^verbatim>\<open>format_report_for_display\<close> and of
  \<^verbatim>\<open>extract_key_metrics\<close> run to their end without a raise, and both functions
  return normally with what the block computed.
\<close>

theorem string_inputs_never_raise:
  "(\<exists>s. format_try (PyStr t) sections_init = Inr s \<and> format_report_for_display (PyStr t) = Inr s)
   \<and> (\<exists>m. extract_try (PyStr t) metrics_init = Inr m \<and> extract_key_metrics (PyStr t) = Inr m)"
  by (simp add: format_report_for_display_def format_try_def extract_key_metrics_def
      extract_try_def py_split_nl_def Let_def)

text \<open>
  Claim C5. If the \<^verbatim>\<open>try\<close> block of \<^verbatim>\<open>extract_key_metrics\<close> raises, the
  dictionary it leaves behind, which the function then returns, is the initial one:
  no competitor, no finding, no opportunity, threat level "Medium".
\<close>

theorem raise_leaves_metrics_default:
  assumes "extract_try v metrics_init = Inl (e, m)"
  shows "extract_key_metrics v = Inr metrics_init
         \<and> m = \<lparr>num_competitors = 0, key_findings = [], threat_level = ''Medium'',
                opportunities = 0\<rparr>"
  using assms
  by (auto simp: extract_key_metrics_def extract_try_def py_split_nl_def Let_def metrics_init_def
      split: sum.splits pyval.splits)

theorem raise_leaves_metrics_default_witness:
  "extract_try PyNone metrics_init = Inl (AttributeError, metrics_init)
   \<and> extract_key_metrics PyNone = Inr metrics_init"
proof -
  have h: "extract_try PyNone metrics_init = Inl (AttributeError, metrics_init)"
    by (simp add: extract_try_def py_split_nl_def)
  from raise_leaves_metrics_default [OF h] h show ?thesis by simp
qed

section \<open>The renderer\<close>

text \<open>
  Claim C7. On the line \<^verbatim>\<open>**bold** and *italic*\<close> the three substitutions, bold first,
  give a bold span around "bold" and an italic span around "italic"; the line takes the
  last branch of the loop body, which constructs one body paragraph from that markup:
  the line yields this paragraph alone, or the exception of its constructor.
\<close>

theorem bold_before_italic:
  "clean_markdown ''**bold** and *italic*'' = ''<b>bold</b> and <i>italic</i>''
   \<and> line_elements lib ''**bold** and *italic*''
       = (case lib (code_points ''<b>bold</b> and <i>italic</i>'') CustomBody of
            None \<Rightarrow> Inr [Paragraph (code_points ''<b>bold</b> and <i>italic</i>'') CustomBody]
          | Some e \<Rightarrow> Inl e)"
proof -
  let ?l = "''**bold** and *italic*''"
  have clean: "clean_markdown ?l = ''<b>bold</b> and <i>italic</i>''"
    by code_simp
  have line: "strip ?l = ?l"
    by code_simp
  have branch: "?l \<noteq> []" "\<not> startswith ?l ''# ''" "\<not> startswith ?l ''## ''"
    "\<not> startswith ?l ''### ''" "\<not> startswith ?l ''- ''" "\<not> startswith ?l ''* ''"
    "\<not> startswith ?l ''1. ''" "\<not> startswith ?l ''2. ''" "\<not> startswith ?l ''3. ''"
    "\<not> startswith ?l ''---''"
    by code_simp+
  have "line_elements lib ?l
        = try_bind (new_paragraph lib (code_points (clean_markdown ?l)) CustomBody)
            (\<lambda>p. Inr [p])"
    unfolding line_elements_def Let_def line using branch by (simp only: if_False simp_thms)
  then show ?thesis
    by (simp only: clean try_bind_def new_paragraph_def split: option.split) simp
qed

text \<open>
  Claim C8, as amended. \<^verbatim>\<open>generate_pdf\<close> produces its list of flowables exactly when
  the library accepts the four paragraphs of the title page and every paragraph of the
  report body. The list then starts with the title page: the title
  "COMPETITOR ANALYSIS REPORT", the company name in bold, the industry, the report date
  and a page break, with the three spacers the source puts between them; the flowables of
  the report body follow. The company name is placed between \<^verbatim>\<open><b>\<close> and \<^verbatim>\<open></b>\<close>
  as it is: when the library accepts the title but not that markup, \<^verbatim>\<open>generate_pdf\<close>
  raises the library's exception and there is no list.
\<close>

theorem title_page_first:
  "((generate_pdf_elements lib now self report_content = Inr elements) =
    (lib (code_points ''COMPETITOR ANALYSIS REPORT'') CustomTitle = None \<and>
     lib (code_points (''<b>'' @ company_name self @ ''</b>'')) CustomHeading2 = None \<and>
     lib (code_points (''Industry: '' @ industry self)) CustomBody = None \<and>
     lib (code_points (''Report Date: '' @ strftime_long now)) CustomBody = None \<and>
     (\<exists>body. parse_report_content lib report_content = Inr body \<and>
        elements =
          [Paragraph (code_points ''COMPETITOR ANALYSIS REPORT'') CustomTitle,
           Spacer 1 30,
           Paragraph (code_points (''<b>'' @ company_name self @ ''</b>'')) CustomHeading2,
           Spacer 1 20,
           Paragraph (code_points (''Industry: '' @ industry self)) CustomBody,
           Spacer 1 10,
           Paragraph (code_points (''Report Date: '' @ strftime_long now)) CustomBody,
           PageBreak] @ body)))
   \<and> (lib (code_points ''COMPETITOR ANALYSIS REPORT'') CustomTitle = None \<and>
      lib (code_points (''<b>'' @ company_name self @ ''</b>'')) CustomHeading2 = Some e
      \<longrightarrow> generate_pdf_elements lib now self report_content = Inl e)"
  unfolding generate_pdf_elements_def create_title_page_def try_bind_def new_paragraph_def
  by (auto split: option.splits sum.splits)

text \<open>
  The amended claim at a company name the library accepts and at one it rejects, on
  1 May 2024 and the report \<^verbatim>\<open># Report\<close>.
\<close>

theorem title_page_first_witness:
  "generate_pdf_elements parser_sample \<lparr>year = 2024, month = 5, day = 1\<rparr>
     \<lparr>company_name = ''Acme'', industry = ''Retail''\<rparr> ''# Report''
   = Inr [Paragraph (code_points ''COMPETITOR ANALYSIS REPORT'') CustomTitle,
          Spacer 1 30,
          Paragraph (code_points ''<b>Acme</b>'') CustomHeading2,
          Spacer 1 20,
          Paragraph (code_points ''Industry: Retail'') CustomBody,
          Spacer 1 10,
          Paragraph (code_points ''Report Date: May 01, 2024'') CustomBody,
          PageBreak,
          Paragraph (code_points ''Report'') CustomTitle,
          Spacer 1 20]
   \<and> generate_pdf_elements parser_sample \<lparr>year = 2024, month = 5, day = 1\<rparr>
       \<lparr>company_name = ''A<B Corp'', industry = ''Retail''\<rparr> ''# Report''
     = Inl ValueError"
proof (intro conjI)
  let ?now = "\<lparr>year = 2024, month = 5, day = 1\<rparr>"
  let ?acme = "\<lparr>company_name = ''Acme'', industry = ''Retail''\<rparr>"
  let ?corp = "\<lparr>company_name = ''A<B Corp'', industry = ''Retail''\<rparr>"
  let ?body = "[Paragraph (code_points ''Report'') CustomTitle, Spacer 1 20]"
  have title: "parser_sample (code_points ''COMPETITOR ANALYSIS REPORT'') CustomTitle = None"
    by code_simp
  have company:
    "parser_sample (code_points (''<b>'' @ company_name ?acme @ ''</b>'')) CustomHeading2 = None"
    by code_simp
  have industry:
    "parser_sample (code_points (''Industry: '' @ industry ?acme)) CustomBody = None"
    by code_simp
  have date:
    "parser_sample (code_points (''Report Date: '' @ strftime_long ?now)) CustomBody = None"
    by code_simp
  have body: "parse_report_content parser_sample ''# Report'' = Inr ?body"
    by code_simp
  have texts: "''<b>'' @ company_name ?acme @ ''</b>'' = ''<b>Acme</b>''"
    "''Industry: '' @ industry ?acme = ''Industry: Retail''"
    "''Report Date: '' @ strftime_long ?now = ''Report Date: May 01, 2024''"
    by code_simp+
  have "generate_pdf_elements parser_sample ?now ?acme ''# Report''
        = Inr ([Paragraph (code_points ''COMPETITOR ANALYSIS REPORT'') CustomTitle,
                Spacer 1 30,
                Paragraph (code_points (''<b>'' @ company_name ?acme @ ''</b>'')) CustomHeading2,
                Spacer 1 20,
                Paragraph (code_points (''Industry: '' @ industry ?acme)) CustomBody,
                Spacer 1 10,
                Paragraph (code_points (''Report Date: '' @ strftime_long ?now)) CustomBody,
                PageBreak] @ ?body)"
    by (rule title_page_first [THEN conjunct1, THEN iffD2])
       (intro conjI exI [of _ ?body] title company industry date body refl)
  then show "generate_pdf_elements parser_sample ?now ?acme ''# Report''
        = Inr [Paragraph (code_points ''COMPETITOR ANALYSIS REPORT'') CustomTitle,
               Spacer 1 30,
               Paragraph (code_points ''<b>Acme</b>'') CustomHeading2,
               Spacer 1 20,
               Paragraph (code_points ''Industry: Retail'') CustomBody,
               Spacer 1 10,
               Paragraph (code_points ''Report Date: May 01, 2024'') CustomBody,
               PageBreak,
               Paragraph (code_points ''Report'') CustomTitle,
               Spacer 1 20]"
    unfolding texts by (simp only: append.simps)
  have rejected:
    "parser_sample (code_points (''<b>'' @ company_name ?corp @ ''</b>'')) CustomHeading2
     = Some ValueError"
    by code_simp
  show "generate_pdf_elements parser_sample ?now ?corp ''# Report'' = Inl ValueError"
    by (rule title_page_first [THEN conjunct2, THEN mp]) (intro conjI title rejected)
qed

text \<open>
  The claim as first stated promises the title page for every company name. For the
  company name \<^verbatim>\<open>A<B Corp\<close> the second paragraph of the title page is not constructed:
  \<^verbatim>\<open>generate_pdf\<close> raises and produces no list of flowables.
\<close>

theorem company_name_markup_counterexample:
  "generate_pdf_elements parser_sample \<lparr>year = 2024, month = 5, day = 1\<rparr>
     \<lparr>company_name = ''A<B Corp'', industry = ''Retail''\<rparr> ''Quarterly report''
   = Inl ValueError"
  by code_simp

section \<open>Facts about \<^verbatim>\<open>strip\<close>, \<^verbatim>\<open>in\<close> and \<^verbatim>\<open>join\<close>\<close>

lemma rstrip_append:
  "rstrip (a @ b) = (if \<forall>x\<in>set b. py_isspace x then rstrip a else a @ rstrip b)"
  by (simp add: rstrip_def dropWhile_append)

lemma rstrip_Cons_nonspace:
  "\<not> py_isspace c \<Longrightarrow> rstrip (c # cs) = c # rstrip cs"
  using rstrip_append [of "[c]" cs] by (auto simp: rstrip_def)

lemma strip_Cons_nonspace:
  "\<not> py_isspace c \<Longrightarrow> strip (c # cs) = c # rstrip cs"
  by (simp add: strip_def lstrip_def rstrip_Cons_nonspace)

lemma rstrip_idem: "rstrip (rstrip s) = rstrip s"
  by (simp add: rstrip_def)

lemma strip_Nil: "strip [] = []"
  by (simp add: strip_def lstrip_def rstrip_def)

lemma strip_rstrip: "strip (rstrip s) = strip s"
proof (cases "\<forall>x\<in>set s. py_isspace x")
  case True
  then have r: "rstrip s = []" by (simp add: rstrip_def)
  from True have l: "lstrip s = []" by (simp add: lstrip_def)
  have "strip s = rstrip []" using l by (simp add: strip_def)
  then have "strip s = []" by (simp add: rstrip_def)
  with r show ?thesis by (simp add: strip_Nil)
next
  case False
  then obtain c b where b: "dropWhile py_isspace s = c # b" and c: "\<not> py_isspace c"
    by (metis dropWhile_eq_Nil_conv hd_dropWhile list.exhaust list.sel(1))
  have s: "s = takeWhile py_isspace s @ c # b"
    using b by (metis takeWhile_dropWhile_id)
  have ns: "\<not> (\<forall>x\<in>set (c # b). py_isspace x)" using c by auto
  have "rstrip s = takeWhile py_isspace s @ rstrip (c # b)"
    using rstrip_append [of "takeWhile py_isspace s" "c # b"] s ns by metis
  then have "rstrip s = takeWhile py_isspace s @ c # rstrip b"
    using c by (simp add: rstrip_Cons_nonspace)
  moreover have "dropWhile py_isspace (takeWhile py_isspace s @ c # rstrip b)
      = dropWhile py_isspace (c # rstrip b)"
    by (rule dropWhile_append2) (auto dest: set_takeWhileD)
  ultimately have "lstrip (rstrip s) = c # rstrip b"
    using c by (simp add: lstrip_def)
  moreover have "lstrip s = c # b" using b by (simp add: lstrip_def)
  ultimately show ?thesis
    using c by (simp add: strip_def rstrip_Cons_nonspace rstrip_idem)
qed

lemma nonspace_hash: "\<not> py_isspace CHR ''#''"
  by (simp add: py_isspace_def)

lemma startswith_iff: "startswith s p = (\<exists>b. s = p @ b)"
  by (auto simp: startswith_def) (metis append_take_drop_id)

lemma py_in_iff: "py_in p s = (\<exists>a b. s = a @ p @ b)"
proof (induction s)
  case Nil
  show ?case by auto
next
  case (Cons c cs)
  show ?case
  proof
    assume "py_in p (c # cs)"
    then consider "startswith (c # cs) p" | "py_in p cs" by auto
    then show "\<exists>a b. c # cs = a @ p @ b"
    proof cases
      case 1
      then obtain b where "c # cs = [] @ p @ b" by (auto simp: startswith_iff)
      then show ?thesis by blast
    next
      case 2
      with Cons obtain a b where "cs = a @ p @ b" by auto
      then have "c # cs = (c # a) @ p @ b" by simp
      then show ?thesis by blast
    qed
  next
    assume "\<exists>a b. c # cs = a @ p @ b"
    then obtain a b where ab: "c # cs = a @ p @ b" by auto
    show "py_in p (c # cs)"
    proof (cases a)
      case Nil
      with ab have "startswith (c # cs) p" unfolding startswith_iff by auto
      then show ?thesis by simp
    next
      case (Cons x a')
      with ab have "cs = a' @ p @ b" by simp
      with Cons.IH show ?thesis by auto
    qed
  qed
qed

lemma py_in_trans:
  assumes "py_in p q" and "py_in q s"
  shows "py_in p s"
proof -
  from assms obtain a b c d where "q = a @ p @ b" and "s = c @ q @ d"
    unfolding py_in_iff by blast
  then have "s = (c @ a) @ p @ (b @ d)" by simp
  then show ?thesis unfolding py_in_iff by blast
qed

lemma market_opportunities:
  "py_in ''market opportunities'' s \<Longrightarrow> py_in ''opportunities'' s"
proof -
  have "py_in ''opportunities'' ''market opportunities''" by code_simp
  then show "py_in ''market opportunities'' s \<Longrightarrow> py_in ''opportunities'' s"
    by (rule py_in_trans)
qed

lemma startswith_hashes_not_marker:
  assumes "startswith line ''##''"
  shows "\<not> startswith_any (strip line) [''1.'', ''2.'', ''3.'', ''-'', ''*'']"
    and "\<not> startswith_any (strip line) [''1.'', ''2.'', ''3.'', ''4.'', ''5.'']"
proof -
  from assms obtain r where "line = CHR ''#'' # r"
    by (cases line) (auto simp: startswith_def)
  then have "strip line = CHR ''#'' # rstrip r"
    by (simp add: strip_Cons_nonspace nonspace_hash)
  then show "\<not> startswith_any (strip line) [''1.'', ''2.'', ''3.'', ''-'', ''*'']"
    and "\<not> startswith_any (strip line) [''1.'', ''2.'', ''3.'', ''4.'', ''5.'']"
    by (simp_all add: startswith_any_def startswith_def)
qed

lemma join_nl_Cons: "ls \<noteq> [] \<Longrightarrow> join_nl (l # ls) = l @ newline # join_nl ls"
  by (cases ls) simp_all

lemma join_nl_append:
  "xs \<noteq> [] \<Longrightarrow> ys \<noteq> [] \<Longrightarrow> join_nl (xs @ ys) = join_nl xs @ newline # join_nl ys"
proof (induction xs)
  case Nil
  then show ?case by simp
next
  case (Cons x xs)
  show ?case
  proof (cases "xs = []")
    case True
    with Cons.prems show ?thesis by (simp add: join_nl_Cons)
  next
    case False
    with Cons show ?thesis by (simp add: join_nl_Cons)
  qed
qed

lemma join_nl_nonempty: "h \<noteq> [] \<Longrightarrow> join_nl (h # b) \<noteq> []"
  by (cases b) simp_all

lemma detect_header_Nil: "detect_header [] = None"
  by code_simp

lemma header_nonempty: "detect_header h = Some k \<Longrightarrow> h \<noteq> []"
  using detect_header_Nil by auto

text \<open>A header line followed by lines that open no section: the pending section is
  flushed, and the new one holds the header and those lines.\<close>
lemma run_section:
  assumes "detect_header h = Some k" and "k \<noteq> []" and "\<forall>l\<in>set b. detect_header l = None"
  shows "foldl fmt_step st (h # b) =
           \<lparr>sections_of = flush st, current_section = Some k, current_content = h # b\<rparr>"
proof -
  let ?st = "\<lparr>sections_of = flush st, current_section = Some k, current_content = [h]\<rparr>"
  have "fmt_step st h = ?st"
    using assms(1) by (simp add: fmt_step_def)
  moreover have "foldl fmt_step ?st b = ?st\<lparr>current_content := current_content ?st @ b\<rparr>"
    using assms(2,3) by (intro foldl_fmt_step_body) simp_all
  ultimately show ?thesis by simp
qed

section \<open>Sections in order\<close>

text \<open>
  Claim C1. Let the lines of the text be a preamble, then a header of \<^verbatim>\<open>overview\<close>,
  of \<^verbatim>\<open>detailed_analysis\<close>, of \<^verbatim>\<open>competitor_matrix\<close> and of
  \<^verbatim>\<open>recommendations\<close> in this order, each followed by lines that open no section.
  Then each of the four values is its header line and the lines up to the next header,
  joined by line feeds, and the last value is the end of the text.
\<close>

theorem four_sections_in_order:
  assumes lines: "split_nl t = pre @ [h1] @ b1 @ [h2] @ b2 @ [h3] @ b3 @ [h4] @ b4"
    and h1: "detect_header h1 = Some ''overview''"
    and h2: "detect_header h2 = Some ''detailed_analysis''"
    and h3: "detect_header h3 = Some ''competitor_matrix''"
    and h4: "detect_header h4 = Some ''recommendations''"
    and others: "\<forall>l\<in>set (pre @ b1 @ b2 @ b3 @ b4). detect_header l = None"
  shows "format_report_for_display (PyStr t) =
           Inr [(''overview'', PyStr (join_nl (h1 # b1))),
                (''detailed_analysis'', PyStr (join_nl (h2 # b2))),
                (''competitor_matrix'', PyStr (join_nl (h3 # b3))),
                (''recommendations'', PyStr (join_nl (h4 # b4)))]
         \<and> suffix (join_nl (h4 # b4)) t"
proof -
  let ?st0 = "\<lparr>sections_of = sections_init, current_section = None, current_content = []\<rparr>"
  let ?s1 = "sections_init"
  let ?st1 = "\<lparr>sections_of = ?s1, current_section = Some ''overview'',
               current_content = h1 # b1\<rparr>"
  let ?s2 = "AList.update ''overview'' (PyStr (join_nl (h1 # b1))) ?s1"
  let ?st2 = "\<lparr>sections_of = ?s2, current_section = Some ''detailed_analysis'',
               current_content = h2 # b2\<rparr>"
  let ?s3 = "AList.update ''detailed_analysis'' (PyStr (join_nl (h2 # b2))) ?s2"
  let ?st3 = "\<lparr>sections_of = ?s3, current_section = Some ''competitor_matrix'',
               current_content = h3 # b3\<rparr>"
  let ?s4 = "AList.update ''competitor_matrix'' (PyStr (join_nl (h3 # b3))) ?s3"
  let ?st4 = "\<lparr>sections_of = ?s4, current_section = Some ''recommendations'',
               current_content = h4 # b4\<rparr>"
  let ?s5 = "AList.update ''recommendations'' (PyStr (join_nl (h4 # b4))) ?s4"
  have p0: "foldl fmt_step ?st0 pre = ?st0"
    using others by (intro foldl_fmt_step_pre) simp_all
  have p1: "foldl fmt_step ?st0 (h1 # b1) = ?st1"
    using run_section [OF h1, of b1 ?st0] others by (simp add: flush_def)
  have p2: "foldl fmt_step ?st1 (h2 # b2) = ?st2"
    using run_section [OF h2, of b2 ?st1] others by (simp add: flush_def)
  have p3: "foldl fmt_step ?st2 (h3 # b3) = ?st3"
    using run_section [OF h3, of b3 ?st2] others by (simp add: flush_def)
  have p4: "foldl fmt_step ?st3 (h4 # b4) = ?st4"
    using run_section [OF h4, of b4 ?st3] others by (simp add: flush_def)
  have "split_nl t = pre @ (h1 # b1) @ (h2 # b2) @ (h3 # b3) @ (h4 # b4)"
    using lines by simp
  then have "foldl fmt_step ?st0 (split_nl t) = ?st4"
    by (simp only: foldl_append p0 p1 p2 p3 p4)
  then have fl: "flush (foldl fmt_step ?st0 (split_nl t)) = ?s5"
    by (simp add: flush_def)
  have s5: "?s5 = [(''overview'', PyStr (join_nl (h1 # b1))),
                (''detailed_analysis'', PyStr (join_nl (h2 # b2))),
                (''competitor_matrix'', PyStr (join_nl (h3 # b3))),
                (''recommendations'', PyStr (join_nl (h4 # b4)))]"
    by (simp add: sections_init_def)
  have "join_nl (h1 # b1) \<noteq> []"
    using header_nonempty [OF h1] by (rule join_nl_nonempty)
  then have tr: "list_ex truthy (map snd ?s5)"
    unfolding s5 by (simp add: truthy_def)
  have res: "format_report_for_display (PyStr t) = Inr ?s5"
    using tr by (simp add: format_report_for_display_def format_try_def py_split_nl_def fl)
  have "t = join_nl (split_nl t)" by (simp add: join_split_nl)
  also have "\<dots> = join_nl ((pre @ (h1 # b1) @ (h2 # b2) @ (h3 # b3)) @ (h4 # b4))"
    using lines by simp
  also have "\<dots> = join_nl (pre @ (h1 # b1) @ (h2 # b2) @ (h3 # b3)) @ newline # join_nl (h4 # b4)"
    by (rule join_nl_append) simp_all
  finally have "suffix (join_nl (h4 # b4)) t"
    by (metis append.assoc append_Cons append_Nil suffixI)
  with res s5 show ?thesis by simp
qed

theorem four_sections_in_order_witness:
  "format_report_for_display
     (PyStr (''Report for Acme'' @ newline # ''## Executive Summary'' @ newline # ''Acme leads.''
             @ newline # ''## SWOT Analysis'' @ newline # ''Strong brand'' @ newline # []
             @ newline # ''## Comparison Matrix'' @ newline # ''## Recommendations''
             @ newline # ''Invest.'')) =
     Inr [(''overview'', PyStr (''## Executive Summary'' @ newline # ''Acme leads.'')),
          (''detailed_analysis'',
           PyStr (''## SWOT Analysis'' @ newline # ''Strong brand'' @ [newline])),
          (''competitor_matrix'', PyStr ''## Comparison Matrix''),
          (''recommendations'', PyStr (''## Recommendations'' @ newline # ''Invest.''))]"
proof -
  let ?t = "''Report for Acme'' @ newline # ''## Executive Summary'' @ newline # ''Acme leads.''
             @ newline # ''## SWOT Analysis'' @ newline # ''Strong brand'' @ newline # []
             @ newline # ''## Comparison Matrix'' @ newline # ''## Recommendations''
             @ newline # ''Invest.''"
  have lines: "split_nl ?t =
      [''Report for Acme''] @ [''## Executive Summary''] @ [''Acme leads.'']
      @ [''## SWOT Analysis''] @ [''Strong brand'', []] @ [''## Comparison Matrix''] @ []
      @ [''## Recommendations''] @ [''Invest.'']"
    by code_simp
  have h1: "detect_header ''## Executive Summary'' = Some ''overview''" by code_simp
  have h2: "detect_header ''## SWOT Analysis'' = Some ''detailed_analysis''" by code_simp
  have h3: "detect_header ''## Comparison Matrix'' = Some ''competitor_matrix''" by code_simp
  have h4: "detect_header ''## Recommendations'' = Some ''recommendations''" by code_simp
  have others: "\<forall>l\<in>set ([''Report for Acme''] @ [''Acme leads.''] @ [''Strong brand'', []]
      @ [] @ [''Invest.'']). detect_header l = None"
    by code_simp
  from four_sections_in_order [OF lines h1 h2 h3 h4 others] show ?thesis by simp
qed

section \<open>Counting opportunities\<close>

text \<open>
  Claim C10. Once \<^verbatim>\<open>in_opportunities\<close> is set, a line whose lowercased text contains
  "opportunities" takes the \<^verbatim>\<open>continue\<close>: the counter and the mode are unchanged
  and the loop goes on with the next line, whatever marker the line starts with. The loop
  breaks exactly on a line that starts with \<^verbatim>\<open>##\<close> and does not contain
  "opportunities".
\<close>

theorem opportunities_lines_skipped:
  "(py_in ''opportunities'' (lower line) \<longrightarrow>
      opportunities_step (True, m) line = Continue (True, m)
      \<and> for_loop opportunities_step (True, m) (line # rest)
          = for_loop opportunities_step (True, m) rest)
   \<and> ((\<exists>s. opportunities_step (True, m) line = Break s)
        = (startswith line ''##'' \<and> \<not> py_in ''opportunities'' (lower line)))"
proof -
  have a: "py_in ''opportunities'' (lower line) \<Longrightarrow>
        opportunities_step (True, m) line = Continue (True, m)"
    by (simp add: opportunities_step_def)
  have b: "(\<exists>s. opportunities_step (True, m) line = Break s)
        = (startswith line ''##'' \<and> \<not> py_in ''opportunities'' (lower line))"
  proof (cases "startswith line ''##''")
    case True
    from startswith_hashes_not_marker(1) [OF True] True show ?thesis
      by (auto simp: opportunities_step_def dest: market_opportunities)
  next
    case False
    then show ?thesis by (auto simp: opportunities_step_def dest: market_opportunities)
  qed
  from a b show ?thesis by simp
qed

theorem opportunities_lines_skipped_witness:
  "py_in ''opportunities'' (lower ''- More Opportunities ahead'')
   \<and> opportunities_step (True, metrics_init) ''- More Opportunities ahead''
       = Continue (True, metrics_init)
   \<and> opportunities (snd (for_loop opportunities_step (False, metrics_init)
        [''## Market Opportunities'', ''- first'', ''- More Opportunities ahead'',
         ''## Opportunities in Asia'', ''* second'', ''## Threats'', ''- third''])) = 2"
proof -
  have h: "py_in ''opportunities'' (lower ''- More Opportunities ahead'')" by code_simp
  have l: "opportunities (snd (for_loop opportunities_step (False, metrics_init)
        [''## Market Opportunities'', ''- first'', ''- More Opportunities ahead'',
         ''## Opportunities in Asia'', ''* second'', ''## Threats'', ''- third''])) = 2"
    by code_simp
  from opportunities_lines_skipped [of "''- More Opportunities ahead''" metrics_init "[]"] h l
  show ?thesis by simp
qed

section \<open>Collecting key findings\<close>

text \<open>A numbered line \<^verbatim>\<open>d. t\<close>: after \<^verbatim>\<open>strip\<close> it starts with its marker, and
  what \<^verbatim>\<open>line.strip()[3:].strip()\<close> keeps of it is \<^verbatim>\<open>t.strip()\<close>.\<close>

lemma strip_all_space:
  assumes "\<forall>x\<in>set t. py_isspace x"
  shows "strip t = []"
proof -
  from assms have "lstrip t = []" by (simp add: lstrip_def)
  then have "strip t = rstrip []" by (simp add: strip_def)
  then show ?thesis by (simp add: rstrip_def)
qed

lemma strip_numbered:
  assumes "\<not> py_isspace d"
  shows "strip (d # ''. '' @ t) =
           (if \<forall>x\<in>set t. py_isspace x then [d, CHR ''.''] else d # ''. '' @ rstrip t)"
proof -
  have dot: "rstrip ''. '' = ''.''"
    by (simp add: rstrip_def py_isspace_def)
  have "strip (d # ''. '' @ t) = d # rstrip (''. '' @ t)"
    using assms by (rule strip_Cons_nonspace)
  also have "rstrip (''. '' @ t) = (if \<forall>x\<in>set t. py_isspace x then ''.'' else ''. '' @ rstrip t)"
    using rstrip_append [of "''. ''" t] dot by simp
  finally show ?thesis by simp
qed

lemma numbered_text:
  assumes "\<not> py_isspace d"
  shows "strip (drop 3 (strip (d # ''. '' @ t))) = strip t"
proof (cases "\<forall>x\<in>set t. py_isspace x")
  case True
  then have "strip (d # ''. '' @ t) = [d, CHR ''.'']"
    using strip_numbered [OF assms, of t] by simp
  then have "strip (drop 3 (strip (d # ''. '' @ t))) = strip []" by simp
  then show ?thesis
    using strip_all_space [OF True] by (simp add: strip_Nil)
next
  case False
  then have "strip (d # ''. '' @ t) = d # ''. '' @ rstrip t"
    using strip_numbered [OF assms, of t] by simp
  then have "strip (drop 3 (strip (d # ''. '' @ t))) = strip (rstrip t)" by simp
  then show ?thesis by (simp add: strip_rstrip)
qed

lemma numbered_marker:
  assumes "\<not> py_isspace d"
  shows "startswith (strip (d # ''. '' @ t)) [d, CHR ''.'']"
  using strip_numbered [OF assms, of t] by (simp add: startswith_def)

lemma findings_item:
  assumes "d \<in> set ''12345''" and "\<not> py_in ''key findings'' (lower (d # ''. '' @ t))"
  shows "findings_step (True, m) (d # ''. '' @ t) =
           Continue (True, m\<lparr>key_findings := key_findings m @ [strip t]\<rparr>)"
proof -
  have ns: "\<not> py_isspace d"
    using assms(1) by (auto simp: py_isspace_def)
  have "startswith_any (strip (d # ''. '' @ t)) [''1.'', ''2.'', ''3.'', ''4.'', ''5.'']"
    using numbered_marker [OF ns, of t] assms(1) by (auto simp: startswith_any_def)
  then show ?thesis
    using assms(2) numbered_text [OF ns, of t] by (simp add: findings_step_def)
qed

lemma findings_before_trigger:
  "\<forall>l\<in>set pre. \<not> py_in ''key findings'' (lower l) \<Longrightarrow>
   for_loop findings_step (False, m) (pre @ rest) = for_loop findings_step (False, m) rest"
  by (induction pre) (simp_all add: findings_step_def)

lemma key_findings_competitors:
  "key_findings (foldl competitors_step m ls) = key_findings m"
  by (induction ls arbitrary: m) (simp_all add: competitors_step_def)

lemma opportunities_step_key_findings:
  "\<exists>b' m'. (opportunities_step (b, m) l = Continue (b', m')
             \<or> opportunities_step (b, m) l = Break (b', m'))
           \<and> key_findings m' = key_findings m"
  by (auto simp: opportunities_step_def)

lemma key_findings_opportunities:
  "key_findings (snd (for_loop opportunities_step (b, m) ls)) = key_findings m"
proof (induction ls arbitrary: b m)
  case Nil
  show ?case by simp
next
  case (Cons l ls)
  obtain b' m' where step: "opportunities_step (b, m) l = Continue (b', m')
      \<or> opportunities_step (b, m) l = Break (b', m')"
    and k: "key_findings m' = key_findings m"
    using opportunities_step_key_findings [of b m l] by blast
  from step show ?case
  proof
    assume "opportunities_step (b, m) l = Continue (b', m')"
    then show ?thesis using Cons [of b' m'] k by simp
  next
    assume "opportunities_step (b, m) l = Break (b', m')"
    then show ?thesis using k by simp
  qed
qed

text \<open>
  Claim C6, as amended. Let the lines of the text be lines without "key findings", a
  trigger line containing "key findings" (in any case), the five lines \<^verbatim>\<open>1. t1\<close> to
  \<^verbatim>\<open>5. t5\<close>, a line starting with \<^verbatim>\<open>##\<close>, and any further lines. If none of
  the five numbered lines and not the \<^verbatim>\<open>##\<close> line contains "key findings", then
  \<^verbatim>\<open>extract_key_metrics\<close> returns, and \<^verbatim>\<open>key_findings\<close> is the list of the five
  texts \<^verbatim>\<open>t1\<close> to \<^verbatim>\<open>t5\<close>, each stripped: the trigger line is not collected, and
  nothing after the \<^verbatim>\<open>##\<close> line is.
\<close>

theorem five_findings_collected:
  assumes lines: "split_nl t =
        pre @ [trigger] @ [''1. '' @ t1, ''2. '' @ t2, ''3. '' @ t3, ''4. '' @ t4, ''5. '' @ t5]
        @ [hdr] @ post"
    and pre: "\<forall>l\<in>set pre. \<not> py_in ''key findings'' (lower l)"
    and trigger: "py_in ''key findings'' (lower trigger)"
    and items: "\<forall>l\<in>set [''1. '' @ t1, ''2. '' @ t2, ''3. '' @ t3, ''4. '' @ t4, ''5. '' @ t5].
                 \<not> py_in ''key findings'' (lower l)"
    and hdr: "startswith hdr ''##''" "\<not> py_in ''key findings'' (lower hdr)"
  shows "\<exists>m. extract_key_metrics (PyStr t) = Inr m
             \<and> key_findings m = [strip t1, strip t2, strip t3, strip t4, strip t5]"
proof -
  define m1 where "m1 = foldl competitors_step metrics_init (split_nl t)"
  have k1: "key_findings m1 = []"
    by (simp add: m1_def key_findings_competitors metrics_init_def)
  let ?items = "[''1. '' @ t1, ''2. '' @ t2, ''3. '' @ t3, ''4. '' @ t4, ''5. '' @ t5]"
  let ?m2 = "m1\<lparr>key_findings := [strip t1, strip t2, strip t3, strip t4, strip t5]\<rparr>"
  have i1: "findings_step (True, m) (CHR ''1'' # CHR ''.'' # CHR '' '' # t1)
      = Continue (True, m\<lparr>key_findings := key_findings m @ [strip t1]\<rparr>)" for m
    using findings_item [of "CHR ''1''" t1 m] items by simp
  have i2: "findings_step (True, m) (CHR ''2'' # CHR ''.'' # CHR '' '' # t2)
      = Continue (True, m\<lparr>key_findings := key_findings m @ [strip t2]\<rparr>)" for m
    using findings_item [of "CHR ''2''" t2 m] items by simp
  have i3: "findings_step (True, m) (CHR ''3'' # CHR ''.'' # CHR '' '' # t3)
      = Continue (True, m\<lparr>key_findings := key_findings m @ [strip t3]\<rparr>)" for m
    using findings_item [of "CHR ''3''" t3 m] items by simp
  have i4: "findings_step (True, m) (CHR ''4'' # CHR ''.'' # CHR '' '' # t4)
      = Continue (True, m\<lparr>key_findings := key_findings m @ [strip t4]\<rparr>)" for m
    using findings_item [of "CHR ''4''" t4 m] items by simp
  have i5: "findings_step (True, m) (CHR ''5'' # CHR ''.'' # CHR '' '' # t5)
      = Continue (True, m\<lparr>key_findings := key_findings m @ [strip t5]\<rparr>)" for m
    using findings_item [of "CHR ''5''" t5 m] items by simp
  have tr: "findings_step (False, m1) trigger = Continue (True, m1)"
    using trigger by (simp add: findings_step_def)
  have br: "findings_step (True, m) hdr = Break (True, m)" for m
    using hdr startswith_hashes_not_marker(2) [OF hdr(1)] by (simp add: findings_step_def)
  have "for_loop findings_step (False, m1) (split_nl t)
      = for_loop findings_step (False, m1) (trigger # ?items @ hdr # post)"
    using findings_before_trigger [OF pre] lines by simp
  also have "\<dots> = (True, ?m2)"
    using k1 by (simp add: tr i1 i2 i3 i4 i5 br)
  finally have m2: "snd (for_loop findings_step (False, m1) (split_nl t)) = ?m2"
    by simp
  have "extract_key_metrics (PyStr t)
      = Inr (snd (for_loop opportunities_step (False, ?m2) (split_nl t)))"
    by (simp add: extract_key_metrics_def extract_try_def py_split_nl_def Let_def m2
        flip: m1_def)
  moreover have "key_findings (snd (for_loop opportunities_step (False, ?m2) (split_nl t)))
      = [strip t1, strip t2, strip t3, strip t4, strip t5]"
    by (simp add: key_findings_opportunities)
  ultimately show ?thesis by simp
qed

theorem five_findings_collected_witness:
  "\<exists>m. extract_key_metrics
          (PyStr (''# Report'' @ newline # ''## Key Findings'' @ newline # ''1. Alpha leads''
                  @ newline # ''2.  Beta follows '' @ newline # ''3. Gamma'' @ newline # ''4. ''
                  @ newline # ''5. Epsilon'' @ newline # ''## Next'' @ newline # ''1. not this''))
          = Inr m
        \<and> key_findings m = [''Alpha leads'', ''Beta follows'', ''Gamma'', [], ''Epsilon'']"
proof -
  let ?t = "''# Report'' @ newline # ''## Key Findings'' @ newline # ''1. Alpha leads''
                  @ newline # ''2.  Beta follows '' @ newline # ''3. Gamma'' @ newline # ''4. ''
                  @ newline # ''5. Epsilon'' @ newline # ''## Next'' @ newline # ''1. not this''"
  have lines: "split_nl ?t = [''# Report''] @ [''## Key Findings'']
      @ [''1. '' @ ''Alpha leads'', ''2. '' @ '' Beta follows '', ''3. '' @ ''Gamma'',
         ''4. '' @ [], ''5. '' @ ''Epsilon'']
      @ [''## Next''] @ [''1. not this'']"
    by code_simp
  have pre: "\<forall>l\<in>set [''# Report'']. \<not> py_in ''key findings'' (lower l)" by code_simp
  have trigger: "py_in ''key findings'' (lower ''## Key Findings'')" by code_simp
  have items: "\<forall>l\<in>set [''1. '' @ ''Alpha leads'', ''2. '' @ '' Beta follows '',
      ''3. '' @ ''Gamma'', ''4. '' @ [], ''5. '' @ ''Epsilon'']. \<not> py_in ''key findings'' (lower l)"
    by code_simp
  have hdr: "startswith ''## Next'' ''##''" "\<not> py_in ''key findings'' (lower ''## Next'')"
    by code_simp+
  have strips: "[strip ''Alpha leads'', strip '' Beta follows '', strip ''Gamma'', strip [],
      strip ''Epsilon''] = [''Alpha leads'', ''Beta follows'', ''Gamma'', [], ''Epsilon'']"
    by code_simp
  from five_findings_collected [OF lines pre trigger items hdr] strips show ?thesis by simp
qed

text \<open>
  The claim as it stands asks for five entries whatever the texts are. A numbered line
  that itself contains "key findings" takes the \<^verbatim>\<open>continue\<close> of the trigger test
  and is not collected: here four entries are returned.
\<close>

theorem finding_with_trigger_words_counterexample:
  "extract_key_metrics
     (PyStr (''## Key Findings'' @ newline # ''1. Key findings differ by region''
             @ newline # ''2. b'' @ newline # ''3. c'' @ newline # ''4. d'' @ newline # ''5. e''
             @ newline # ''## Next''))
   = Inr \<lparr>num_competitors = 0, key_findings = [''b'', ''c'', ''d'', ''e''],
           threat_level = ''Medium'', opportunities = 0\<rparr>"
  by code_simp

section \<open>Texts without heading keywords\<close>

text \<open>
  A line of the text, lowercased and trimmed, is a substring of the lowercased text. So a
  text in which none of the seven keywords of the section classifier occurs, in any case,
  has no line that opens a section.
\<close>

lemma split_nl_hd_prefix: "split_nl s = l # ls \<Longrightarrow> \<exists>b. s = l @ b"
proof (induction s arbitrary: l ls)
  case Nil
  then show ?case by simp
next
  case (Cons c cs)
  obtain l' ls' where s: "split_nl cs = l' # ls'"
    using split_nl_nonempty [of cs] by (cases "split_nl cs") auto
  show ?case
  proof (cases "c = newline")
    case True
    with Cons.prems show ?thesis by simp
  next
    case False
    with Cons.prems s have "l = c # l'" by simp
    moreover from Cons.IH [OF s] obtain b where "cs = l' @ b" by blast
    ultimately show ?thesis by simp
  qed
qed

lemma split_nl_line_in_text: "line \<in> set (split_nl s) \<Longrightarrow> py_in line s"
proof (induction s arbitrary: line)
  case Nil
  then show ?case by simp
next
  case (Cons c cs)
  obtain l' ls' where s: "split_nl cs = l' # ls'"
    using split_nl_nonempty [of cs] by (cases "split_nl cs") auto
  from split_nl_hd_prefix [OF s] obtain b where b: "cs = l' @ b" by blast
  have rest: "line \<in> set (split_nl cs) \<Longrightarrow> py_in line (c # cs)" for line
    using Cons.IH [of line] by simp
  show ?case
  proof (cases "c = newline")
    case True
    with Cons.prems s have "line = [] \<or> line \<in> set (split_nl cs)" by auto
    then show ?thesis
    proof
      assume "line = []"
      then show ?thesis by (simp add: startswith_def)
    next
      assume "line \<in> set (split_nl cs)"
      then show ?thesis by (rule rest)
    qed
  next
    case False
    with Cons.prems s have "line = c # l' \<or> line \<in> set ls'" by auto
    then show ?thesis
    proof
      assume "line = c # l'"
      with b have "startswith (c # cs) line" by (simp add: startswith_def)
      then show ?thesis by simp
    next
      assume "line \<in> set ls'"
      with s have "line \<in> set (split_nl cs)" by simp
      then show ?thesis by (rule rest)
    qed
  qed
qed

lemma strip_in_string: "py_in (strip s) s"
proof -
  let ?x = "dropWhile py_isspace s"
  let ?tail = "rev (takeWhile py_isspace (rev ?x))"
  have "rev (dropWhile py_isspace (rev ?x)) @ ?tail
      = rev (takeWhile py_isspace (rev ?x) @ dropWhile py_isspace (rev ?x))"
    by (simp only: rev_append)
  also have "\<dots> = rev (rev ?x)"
    by (simp only: takeWhile_dropWhile_id)
  also have "\<dots> = ?x" by simp
  finally have "strip s @ ?tail = ?x"
    by (simp only: strip_def lstrip_def rstrip_def)
  then have "takeWhile py_isspace s @ strip s @ ?tail = takeWhile py_isspace s @ ?x"
    by simp
  then have "s = takeWhile py_isspace s @ strip s @ ?tail"
    by (simp only: takeWhile_dropWhile_id)
  then show ?thesis unfolding py_in_iff by blast
qed

lemma lower_in_lower:
  assumes "py_in p s"
  shows "py_in (lower p) (lower s)"
proof -
  from assms obtain a b where "s = a @ p @ b" unfolding py_in_iff by blast
  then have "lower s = lower a @ lower p @ lower b" by (simp add: lower_def)
  then show ?thesis unfolding py_in_iff by blast
qed

lemma keyword_in_line_in_text:
  assumes "line \<in> set (split_nl t)" and "py_in k (strip (lower line))"
  shows "py_in k (lower t)"
proof -
  have "py_in k (lower line)"
    using assms(2) strip_in_string by (rule py_in_trans)
  moreover have "py_in (lower line) (lower t)"
    using assms(1) by (intro lower_in_lower split_nl_line_in_text)
  ultimately show ?thesis by (rule py_in_trans)
qed

lemma no_keyword_no_header:
  assumes "\<forall>k\<in>set [''executive summary'', ''key findings'', ''detailed competitor analysis'',
      ''swot'', ''comparison matrix'', ''competitive comparison'', ''recommendation''].
      \<not> py_in k (lower t)"
  shows "\<forall>line\<in>set (split_nl t). detect_header line = None"
proof
  fix line
  assume l: "line \<in> set (split_nl t)"
  have "\<not> py_in k (strip (lower line))"
    if "k \<in> set [''executive summary'', ''key findings'', ''detailed competitor analysis'',
      ''swot'', ''comparison matrix'', ''competitive comparison'', ''recommendation'']" for k
    using keyword_in_line_in_text [OF l, of k] assms that by blast
  then show "detect_header line = None"
    by (simp add: detect_header_def is_overview_header_def is_detailed_header_def
        is_matrix_header_def is_recommendations_header_def)
qed

section \<open>The export file name\<close>

text \<open>The two substitutions of \<^verbatim>\<open>generate_filename\<close>: the first deletes, the second
  copies what lies outside the class and turns each maximal run of the class into one
  replacement.\<close>

lemma re_sub_class_delete: "re_sub_class cls [] s = filter (\<lambda>c. \<not> cls c) s"
  by (induction s) (simp_all add: re_sub_class_def)

lemma re_sub_class_plus_keep:
  "\<forall>c\<in>set w. \<not> cls c \<Longrightarrow>
   re_sub_class_plus cls repl (w @ s) = w @ re_sub_class_plus cls repl s"
  by (induction w) simp_all

lemma re_sub_class_plus_run:
  assumes "r \<noteq> []" and "\<forall>c\<in>set r. cls c" and "rest = [] \<or> \<not> cls (hd rest)"
  shows "re_sub_class_plus cls repl (r @ rest) = repl @ re_sub_class_plus cls repl rest"
proof -
  from assms(1) obtain c r' where r: "r = c # r'" by (cases r) auto
  have "dropWhile cls (r' @ rest) = dropWhile cls rest"
    using assms(2) r by (intro dropWhile_append2) simp
  also have "\<dots> = rest"
    using assms(3) by (cases rest) auto
  finally show ?thesis
    using assms(2) r by simp
qed

lemma re_sub_class_plus_chars:
  "c \<in> set (re_sub_class_plus cls repl s) \<Longrightarrow> (c \<in> set s \<and> \<not> cls c) \<or> c \<in> set repl"
proof (induction cls repl s rule: re_sub_class_plus.induct)
  case (1 cls repl)
  then show ?case by simp
next
  case (2 cls repl x xs)
  show ?case
  proof (cases "cls x")
    case True
    with 2 show ?thesis by (auto dest: set_dropWhileD)
  next
    case False
    with 2 show ?thesis by auto
  qed
qed

text \<open>
  Claim C9. For every company name, extension and date, \<^verbatim>\<open>generate_filename\<close>
  returns \<^verbatim>\<open>competitor_analysis_\<close>, the sanitized name, an underscore, the date as
  \<^verbatim>\<open>YYYYMMDD\<close>, a dot and the extension. The sanitized name is the company name
  without the characters that are neither alphanumeric nor underscore, whitespace or
  hyphen, in which each run of hyphens and whitespace has become one underscore (text
  outside such runs is kept, a run followed by the end or by another character gives one
  underscore), so that only alphanumeric characters and underscores are left. On
  2024-05-01, "Acme, Inc." with "pdf" gives
  \<^verbatim>\<open>competitor_analysis_Acme_Inc_20240501.pdf\<close>, and the empty name gives
  \<^verbatim>\<open>competitor_analysis__20240501.pdf\<close>.
\<close>

theorem generate_filename_format:
  "generate_filename now company extension =
     ''competitor_analysis_''
     @ re_sub_class_plus hyphen_or_space ''_''
         (filter (\<lambda>c. py_isalnum c \<or> c = CHR ''_'' \<or> py_isspace c \<or> c = CHR ''-'') company)
     @ ''_'' @ dec4 (year now) @ dec2 (month now) @ dec2 (day now) @ ''.'' @ extension
   \<and> ((\<forall>c\<in>set w. \<not> hyphen_or_space c) \<longrightarrow>
        re_sub_class_plus hyphen_or_space ''_'' (w @ s)
          = w @ re_sub_class_plus hyphen_or_space ''_'' s)
   \<and> (r \<noteq> [] \<and> (\<forall>c\<in>set r. hyphen_or_space c) \<and> (rest = [] \<or> \<not> hyphen_or_space (hd rest)) \<longrightarrow>
        re_sub_class_plus hyphen_or_space ''_'' (r @ rest)
          = ''_'' @ re_sub_class_plus hyphen_or_space ''_'' rest)
   \<and> (\<forall>c\<in>set (re_sub_class_plus hyphen_or_space ''_''
          (filter (\<lambda>c. py_isalnum c \<or> c = CHR ''_'' \<or> py_isspace c \<or> c = CHR ''-'') company)).
        py_isalnum c \<or> c = CHR ''_'')
   \<and> generate_filename \<lparr>year = 2024, month = 5, day = 1\<rparr> ''Acme, Inc.'' ''pdf''
        = ''competitor_analysis_Acme_Inc_20240501.pdf''
   \<and> generate_filename \<lparr>year = 2024, month = 5, day = 1\<rparr> [] ''pdf''
        = ''competitor_analysis__20240501.pdf''"
proof -
  let ?keep = "\<lambda>c. py_isalnum c \<or> c = CHR ''_'' \<or> py_isspace c \<or> c = CHR ''-''"
  have del: "re_sub_class not_word_space_hyphen [] company = filter ?keep company"
    by (simp add: re_sub_class_delete not_word_space_hyphen_def)
  have a: "generate_filename now company extension =
     ''competitor_analysis_''
     @ re_sub_class_plus hyphen_or_space ''_'' (filter ?keep company)
     @ ''_'' @ dec4 (year now) @ dec2 (month now) @ dec2 (day now) @ ''.'' @ extension"
    by (simp add: generate_filename_def Let_def del strftime_ymd_def)
  have b: "(\<forall>c\<in>set w. \<not> hyphen_or_space c) \<longrightarrow>
        re_sub_class_plus hyphen_or_space ''_'' (w @ s)
          = w @ re_sub_class_plus hyphen_or_space ''_'' s"
    using re_sub_class_plus_keep [of w hyphen_or_space "''_''" s] by blast
  have c: "r \<noteq> [] \<and> (\<forall>c\<in>set r. hyphen_or_space c) \<and> (rest = [] \<or> \<not> hyphen_or_space (hd rest)) \<longrightarrow>
        re_sub_class_plus hyphen_or_space ''_'' (r @ rest)
          = ''_'' @ re_sub_class_plus hyphen_or_space ''_'' rest"
    using re_sub_class_plus_run [of r hyphen_or_space rest "''_''"] by blast
  have d: "\<forall>c\<in>set (re_sub_class_plus hyphen_or_space ''_'' (filter ?keep company)).
        py_isalnum c \<or> c = CHR ''_''"
  proof
    fix c
    assume "c \<in> set (re_sub_class_plus hyphen_or_space ''_'' (filter ?keep company))"
    from re_sub_class_plus_chars [OF this]
    show "py_isalnum c \<or> c = CHR ''_''"
      by (auto simp: hyphen_or_space_def)
  qed
  have e: "generate_filename \<lparr>year = 2024, month = 5, day = 1\<rparr> ''Acme, Inc.'' ''pdf''
        = ''competitor_analysis_Acme_Inc_20240501.pdf''"
    by code_simp
  have f: "generate_filename \<lparr>year = 2024, month = 5, day = 1\<rparr> [] ''pdf''
        = ''competitor_analysis__20240501.pdf''"
    by code_simp
  from a b c d e f show ?thesis by blast
qed

theorem generate_filename_format_witness:
  "generate_filename \<lparr>year = 2026, month = 11, day = 6\<rparr> ''Acme - Widgets, Ltd.'' ''txt''
     = ''competitor_analysis_Acme_Widgets_Ltd_20261106.txt''
   \<and> re_sub_class_plus hyphen_or_space ''_'' (''Acme'' @ '' - Widgets'')
       = ''Acme'' @ re_sub_class_plus hyphen_or_space ''_'' '' - Widgets''
   \<and> re_sub_class_plus hyphen_or_space ''_'' ('' - '' @ ''Widgets'')
       = ''_'' @ re_sub_class_plus hyphen_or_space ''_'' ''Widgets''"
proof -
  have w: "\<forall>c\<in>set ''Acme''. \<not> hyphen_or_space c" by code_simp
  have r: "'' - '' \<noteq> [] \<and> (\<forall>c\<in>set '' - ''. hyphen_or_space c)
      \<and> (''Widgets'' = [] \<or> \<not> hyphen_or_space (hd ''Widgets''))" by code_simp
  have v: "''competitor_analysis_''
     @ re_sub_class_plus hyphen_or_space ''_''
         (filter (\<lambda>c. py_isalnum c \<or> c = CHR ''_'' \<or> py_isspace c \<or> c = CHR ''-'')
            ''Acme - Widgets, Ltd.'')
     @ ''_'' @ dec4 (year \<lparr>year = 2026, month = 11, day = 6\<rparr>)
     @ dec2 (month \<lparr>year = 2026, month = 11, day = 6\<rparr>)
     @ dec2 (day \<lparr>year = 2026, month = 11, day = 6\<rparr>) @ ''.'' @ ''txt''
     = ''competitor_analysis_Acme_Widgets_Ltd_20261106.txt''" by code_simp
  note T = generate_filename_format [of "\<lparr>year = 2026, month = 11, day = 6\<rparr>"
      "''Acme - Widgets, Ltd.''" "''txt''" "''Acme''" "'' - Widgets''" "'' - ''" "''Widgets''"]
  have a: "generate_filename \<lparr>year = 2026, month = 11, day = 6\<rparr> ''Acme - Widgets, Ltd.'' ''txt''
     = ''competitor_analysis_Acme_Widgets_Ltd_20261106.txt''"
    using T [THEN conjunct1] v by (rule trans)
  have b: "re_sub_class_plus hyphen_or_space ''_'' (''Acme'' @ '' - Widgets'')
       = ''Acme'' @ re_sub_class_plus hyphen_or_space ''_'' '' - Widgets''"
    using T [THEN conjunct2, THEN conjunct1] w by (rule mp)
  have c: "re_sub_class_plus hyphen_or_space ''_'' ('' - '' @ ''Widgets'')
       = ''_'' @ re_sub_class_plus hyphen_or_space ''_'' ''Widgets''"
    using T [THEN conjunct2, THEN conjunct2, THEN conjunct1] r by (rule mp)
  from a b c show ?thesis by (intro conjI)
qed

end
